theory Spec2Isabelle
  imports Main
begin

section \<open>JavaScript values, errors and completions\<close>

text \<open>
  The DragDrop plugin (the class of \<^verbatim>\<open>src/unnamed/part_000\<close>) is a class whose methods mutate the plugin
  object, the event they are given, the browser's timer table and the host orchestrator
  (\<open>this.uppy\<close>). The embedding passes all of that explicitly. A method that can raise
  returns a completion: \<open>Normal\<close> when it returns, \<open>Throw\<close> when it raises. Both carry the
  world as it is at that moment, because a JavaScript exception does not undo the writes
  made before it.
\<close>

datatype js_error = TypeError string | Thrown string

datatype 'a completion = Normal 'a | Throw js_error 'a

fun world_of :: "'a completion \<Rightarrow> 'a" where
  "world_of (Normal w) = w"
| "world_of (Throw e w) = w"

fun raised :: "'a completion \<Rightarrow> js_error option" where
  "raised (Normal w) = None"
| "raised (Throw e w) = Some e"

text \<open>Sequencing of statements: the rest runs only when the first part returned.\<close>

fun and_then :: "'a completion \<Rightarrow> ('a \<Rightarrow> 'b completion) \<Rightarrow> ('a \<Rightarrow> 'b) \<Rightarrow> 'b completion" where
  "and_then (Normal w) f g = f w"
| "and_then (Throw e w) f g = Throw e (g w)"

text \<open>\<open>try { body } catch (err) { handler(err) }\<close>\<close>

fun try_catch :: "'a completion \<Rightarrow> (js_error \<Rightarrow> 'a \<Rightarrow> 'a completion) \<Rightarrow> 'a completion" where
  "try_catch (Normal w) h = Normal w"
| "try_catch (Throw e w) h = h e w"

text \<open>
  An optional string property of a JavaScript object: absent (\<open>undefined\<close>), \<open>null\<close>, or a
  string. \<open>a || b\<close> is \<open>a\<close> when \<open>a\<close> is truthy and \<open>b\<close> otherwise; the empty string is falsy.
\<close>

datatype js_string = Undefined | Null | Str string

fun truthy :: "js_string \<Rightarrow> bool" where
  "truthy Undefined = False"
| "truthy Null = False"
| "truthy (Str s) = (s \<noteq> [])"

definition or_else :: "js_string \<Rightarrow> js_string \<Rightarrow> js_string" where
  "or_else a b = (if truthy a then a else b)"

section \<open>Files, descriptors, events\<close>

text \<open>A raw platform file handle: \<open>file.name\<close>, \<open>file.type\<close>, \<open>file.relativePath\<close>, and the
  identity of the bytes it refers to.\<close>

record raw_file =
  fileName :: string
  fileType :: string
  fileRelativePath :: js_string
  fileBytes :: nat

record file_meta =
  relativePath :: js_string

text \<open>The object literal built in \<open>addFiles\<close> (lines 74-84).\<close>

record descriptor =
  source :: string
  name :: string
  type :: string
  data :: raw_file
  meta :: file_meta

text \<open>\<open>event.dataTransfer\<close> of a drag event: the type manifest, the drop-effect indicator and
  the dropped payload.\<close>

record data_transfer =
  types :: "string list"
  dropEffect :: string
  items :: "raw_file list"

record drag_event =
  dataTransfer :: data_transfer
  defaultPrevented :: bool
  propagationStopped :: bool

text \<open>The change event of the hidden file input: \<open>event.target.files\<close> and
  \<open>event.target.value\<close>.\<close>

record input_event =
  target_files :: "raw_file list"
  target_value :: js_string

section \<open>Options, orchestrator, plugin state\<close>

text \<open>
  An observer callback receives the event; it returns or raises. Observers are taken to
  inspect only: they do not write to the event or to the plugin.
\<close>

type_synonym callback = "drag_event \<Rightarrow> js_error option"

text \<open>
  An options object, the constructor's argument as well as \<open>this.opts\<close>. A string key is
  absent (\<open>None\<close>) or present with a value, which may itself be \<open>undefined\<close>: the spread of
  line 56 tells the two apart. An observer key holds a function or nothing callable
  (absent, \<open>undefined\<close> or \<open>null\<close>); the defaults have no observer key, so reading it gives
  the same in each of these cases.
\<close>

record options =
  opt_id :: "js_string option"
  target :: "js_string option"
  inputName :: "js_string option"
  width :: "js_string option"
  height :: "js_string option"
  noteText :: "js_string option"
  onDragOver :: "callback option"
  onDragLeave :: "callback option"
  onDrop :: "callback option"

text \<open>The part of the orchestrator the plugin reads: \<open>this.uppy.getState().allowNewUpload\<close>,
  and the files it has registered.\<close>

record uppy_state =
  allowNewUpload :: bool
  registered :: "descriptor list"

datatype kind = DragOverKind | DragLeaveKind | DropKind

datatype log_message = Msg string | Err js_error

text \<open>Every effect a method has on the outside, in the order it happens.\<close>

datatype action =
    PreventDefault
  | StopPropagation
  | SetDropEffect string
  | ClearTimeout "nat option"
  | SetTimeout nat nat
  | SetPluginState bool
  | GetDroppedFiles
  | Log log_message "string option"
  | AddFiles "descriptor list"
  | Invoke kind drag_event
  | ClearInput
  | Uncaught js_error

text \<open>
  The plugin object and its surroundings: \<open>this.id\<close>, \<open>this.opts\<close>, the plugin state
  \<open>isDraggingOver\<close>, the field \<open>removeDragOverClassTimeout\<close> (a timer handle or \<open>null\<close>),
  \<open>this.uppy\<close>; the browser's pending timers (handle, due time in ms), its next free
  handle and its clock; the drops whose directory traversal has not resolved yet; the
  trace of effects.
\<close>

record state =
  plugin_id :: string
  opts :: options
  isDraggingOver :: bool
  removeDragOverClassTimeout :: "nat option"
  uppy :: uppy_state
  timers :: "(nat \<times> nat) list"
  nextTimer :: nat
  clock :: nat
  awaiting :: "drag_event list"
  trace :: "action list"

text \<open>
  The two collaborators that are not part of the plugin are parameters:
  \<open>uppy_addFiles\<close> is the orchestrator's \<open>addFiles\<close> (it may raise, and leaves the orchestrator
  in some state either way); \<open>getDroppedFiles\<close> is the helper of
  \<open>@uppy/utils/lib/getDroppedFiles\<close>: from \<open>event.dataTransfer\<close> it resolves to the errors it
  hands to \<open>logDropError\<close> and the files it found.
\<close>

record env =
  uppy_addFiles :: "descriptor list \<Rightarrow> uppy_state \<Rightarrow> js_error option \<times> uppy_state"
  getDroppedFiles :: "data_transfer \<Rightarrow> js_error list \<times> raw_file list"

type_synonym frame = "drag_event \<times> state"

section \<open>Primitives\<close>

definition emit :: "action \<Rightarrow> state \<Rightarrow> state" where
  "emit a s = s\<lparr>trace := trace s @ [a]\<rparr>"

definition preventDefault :: "frame \<Rightarrow> frame" where
  "preventDefault w = ((fst w)\<lparr>defaultPrevented := True\<rparr>, emit PreventDefault (snd w))"

definition stopPropagation :: "frame \<Rightarrow> frame" where
  "stopPropagation w = ((fst w)\<lparr>propagationStopped := True\<rparr>, emit StopPropagation (snd w))"

definition setDropEffect :: "string \<Rightarrow> frame \<Rightarrow> frame" where
  "setDropEffect v w =
     ((fst w)\<lparr>dataTransfer := (dataTransfer (fst w))\<lparr>dropEffect := v\<rparr>\<rparr>,
      emit (SetDropEffect v) (snd w))"

text \<open>\<open>clearTimeout(h)\<close>: a pending timer with that handle is removed; \<open>null\<close> or a handle
  that already fired changes nothing.\<close>

definition clearTimeout :: "nat option \<Rightarrow> state \<Rightarrow> state" where
  "clearTimeout h s =
     emit (ClearTimeout h) (s\<lparr>timers := filter (\<lambda>p. Some (fst p) \<noteq> h) (timers s)\<rparr>)"

text \<open>\<open>setTimeout(fn, delay)\<close>: the only function the plugin schedules is the one of
  \<open>handleDragLeave\<close>, so a pending timer is its handle and its due time.\<close>

definition setTimeout :: "nat \<Rightarrow> state \<Rightarrow> nat \<times> state" where
  "setTimeout delay s =
     (nextTimer s,
      emit (SetTimeout (nextTimer s) delay)
        (s\<lparr>timers := timers s @ [(nextTimer s, clock s + delay)],
           nextTimer := Suc (nextTimer s)\<rparr>))"

definition setPluginState :: "bool \<Rightarrow> state \<Rightarrow> state" where
  "setPluginState b s = emit (SetPluginState b) (s\<lparr>isDraggingOver := b\<rparr>)"

text \<open>Modelled from the spec: \<open>this.uppy.log(message, level)\<close> is the orchestrator's command
  "log diagnostic/error message"; its code (\<open>@uppy/core\<close>) is not among the sources. It
  records the message and does not raise.\<close>

definition uppy_log :: "log_message \<Rightarrow> string option \<Rightarrow> state \<Rightarrow> state" where
  "uppy_log m lvl s = emit (Log m lvl) s"

text \<open>\<open>this.uppy.addFiles(descriptors)\<close>\<close>

definition call_uppy_addFiles :: "env \<Rightarrow> descriptor list \<Rightarrow> state \<Rightarrow> state completion" where
  "call_uppy_addFiles E ds s =
     (let r = uppy_addFiles E ds (uppy s);
          s' = emit (AddFiles ds) (s\<lparr>uppy := snd r\<rparr>)
      in case fst r of None \<Rightarrow> Normal s' | Some e \<Rightarrow> Throw e s')"

text \<open>Calling an observer with the event.\<close>

definition invoke :: "kind \<Rightarrow> callback \<Rightarrow> frame \<Rightarrow> frame completion" where
  "invoke k f w =
     (let w' = (fst w, emit (Invoke k (fst w)) (snd w))
      in case f (fst w) of None \<Rightarrow> Normal w' | Some e \<Rightarrow> Throw e w')"

text \<open>
  \<open>this.opts?.onDragOver(event)\<close> (lines 134 and 148): the optional chaining guards
  \<open>this.opts\<close>, which the constructor always sets to an object, not the callback. With no
  callback registered the call is a call of \<open>undefined\<close>: a TypeError.
\<close>

definition call_unguarded :: "kind \<Rightarrow> callback option \<Rightarrow> frame \<Rightarrow> frame completion" where
  "call_unguarded k cb w =
     (case cb of
        None \<Rightarrow> Throw (TypeError ''callback is not a function'') w
      | Some f \<Rightarrow> invoke k f w)"

text \<open>\<open>this.opts.onDrop?.(event)\<close> (line 170): no callback, no call.\<close>

definition call_optional :: "kind \<Rightarrow> callback option \<Rightarrow> frame \<Rightarrow> frame completion" where
  "call_optional k cb w =
     (case cb of
        None \<Rightarrow> Normal w
      | Some f \<Rightarrow> invoke k f w)"

section \<open>The methods of DragDrop\<close>

text \<open>The constructor (lines 38-71): \<open>this.id = opts.id || 'DragDrop'\<close>, the defaults merged
  under the user's options, \<open>removeDragOverClassTimeout = null\<close>. The plugin state is not
  set before \<open>install\<close>.\<close>

definition defaultOpts :: options where
  "defaultOpts =
     \<lparr>opt_id = None, target = Some Null, inputName = Some (Str ''files[]''),
      width = Some (Str ''100%''), height = Some (Str ''100%''), noteText = Some Null,
      onDragOver = None, onDragLeave = None, onDrop = None\<rparr>"

text \<open>\<open>{ ...defaultOpts, ...opts }\<close>, key by key: a key the user's object has wins, whatever
  its value, \<open>undefined\<close> included; a key it lacks keeps the default.\<close>

definition merge_field :: "js_string option \<Rightarrow> js_string option \<Rightarrow> js_string option" where
  "merge_field d u = (case u of None \<Rightarrow> d | Some v \<Rightarrow> Some v)"

text \<open>Reading a key: an absent key reads as \<open>undefined\<close>.\<close>

definition read_key :: "js_string option \<Rightarrow> js_string" where
  "read_key k = (case k of None \<Rightarrow> Undefined | Some v \<Rightarrow> v)"

definition merge_opts :: "options \<Rightarrow> options \<Rightarrow> options" where
  "merge_opts d u =
     \<lparr>opt_id = merge_field (opt_id d) (opt_id u),
      target = merge_field (target d) (target u),
      inputName = merge_field (inputName d) (inputName u),
      width = merge_field (width d) (width u),
      height = merge_field (height d) (height u),
      noteText = merge_field (noteText d) (noteText u),
      onDragOver = onDragOver u, onDragLeave = onDragLeave u, onDrop = onDrop u\<rparr>"

definition constructor :: "uppy_state \<Rightarrow> options \<Rightarrow> state" where
  "constructor u os =
     \<lparr>plugin_id =
        (case or_else (read_key (opt_id os)) (Str ''DragDrop'') of
           Str s \<Rightarrow> s
         | _ \<Rightarrow> ''DragDrop''),
      opts = merge_opts defaultOpts os,
      isDraggingOver = False,
      removeDragOverClassTimeout = None,
      uppy = u,
      timers = [],
      nextTimer = 1,
      clock = 0,
      awaiting = [],
      trace = []\<rparr>"

text \<open>\<open>install\<close> (lines 253-263); mounting is rendering and is left out.\<close>

definition install :: "state \<Rightarrow> state" where
  "install s = setPluginState False s"

text \<open>The descriptor of one file (lines 74-84).\<close>

definition build_descriptor :: "string \<Rightarrow> raw_file \<Rightarrow> descriptor" where
  "build_descriptor pid f =
     \<lparr>source = pid,
      name = fileName f,
      type = fileType f,
      data = f,
      meta = \<lparr>relativePath = or_else (fileRelativePath f) Null\<rparr>\<rparr>"

text \<open>\<open>addFiles\<close> (lines 73-91).\<close>

definition addFiles :: "env \<Rightarrow> raw_file list \<Rightarrow> state \<Rightarrow> state completion" where
  "addFiles E files s =
     (let descriptors = map (build_descriptor (plugin_id s)) files
      in try_catch (call_uppy_addFiles E descriptors s)
           (\<lambda>err s'. Normal (uppy_log (Err err) None s')))"

text \<open>Modelled from the spec: \<open>toArray\<close> (\<open>@uppy/utils/lib/toArray\<close>, not among the sources)
  turns the collection of the picker into an ordered list, in the order the platform
  gives.\<close>

definition toArray :: "'a list \<Rightarrow> 'a list" where
  "toArray xs = xs"

text \<open>\<open>onInputChange\<close> (lines 93-108).\<close>

definition onInputChange :: "env \<Rightarrow> input_event \<Rightarrow> state \<Rightarrow> (input_event \<times> state) completion" where
  "onInputChange E event s =
     (let files = toArray (target_files event)
      in and_then
           (if length files > 0
            then addFiles E files (uppy_log (Msg ''[DragDrop] Files selected through input'') None s)
            else Normal s)
           (\<lambda>s'. Normal (event\<lparr>target_value := Null\<rparr>, emit ClearInput s'))
           (\<lambda>s'. (event, s')))"

text \<open>\<open>handleDragOver\<close> (lines 110-135).\<close>

definition hasFiles :: "drag_event \<Rightarrow> bool" where
  "hasFiles event = list_ex (\<lambda>t. t = ''Files'') (types (dataTransfer event))"

definition handleDragOver :: "drag_event \<Rightarrow> state \<Rightarrow> frame completion" where
  "handleDragOver event s =
     (let w = stopPropagation (preventDefault (event, s))
      in if \<not> hasFiles (fst w) \<or> \<not> allowNewUpload (uppy (snd w)) then
           (let w1 = setDropEffect ''none'' w
            in Normal (fst w1, clearTimeout (removeDragOverClassTimeout (snd w1)) (snd w1)))
         else
           (let w1 = setDropEffect ''copy'' w;
                s2 = clearTimeout (removeDragOverClassTimeout (snd w1)) (snd w1);
                s3 = setPluginState True s2
            in call_unguarded DragOverKind (onDragOver (opts s3)) (fst w1, s3)))"

text \<open>\<open>handleDragLeave\<close> (lines 137-149).\<close>

definition handleDragLeave :: "drag_event \<Rightarrow> state \<Rightarrow> frame completion" where
  "handleDragLeave event s =
     (let w = stopPropagation (preventDefault (event, s));
          s1 = clearTimeout (removeDragOverClassTimeout (snd w)) (snd w);
          r = setTimeout 50 s1;
          s2 = (snd r)\<lparr>removeDragOverClassTimeout := Some (fst r)\<rparr>
      in call_unguarded DragLeaveKind (onDragLeave (opts s2)) (fst w, s2))"

text \<open>
  \<open>handleDrop\<close> (lines 151-171) is an async function. Everything up to the call of
  \<open>getDroppedFiles\<close> runs when the event is dispatched (\<open>handleDrop_begin\<close>); the statements
  after the \<open>await\<close> run when the traversal has resolved (\<open>handleDrop_resume\<close>).
  \<open>handleDrop\<close> is the two in a row, with nothing dispatched in between.
\<close>

definition handleDrop_begin :: "drag_event \<Rightarrow> state \<Rightarrow> frame" where
  "handleDrop_begin event s =
     (let w = stopPropagation (preventDefault (event, s));
          s1 = clearTimeout (removeDragOverClassTimeout (snd w)) (snd w);
          s2 = setPluginState False s1
      in (fst w, emit GetDroppedFiles s2))"

definition logDropError :: "js_error \<Rightarrow> state \<Rightarrow> state" where
  "logDropError error s = uppy_log (Err error) (Some ''error'') s"

definition handleDrop_resume :: "env \<Rightarrow> frame \<Rightarrow> frame completion" where
  "handleDrop_resume E w =
     (let r = getDroppedFiles E (dataTransfer (fst w));
          s1 = fold logDropError (fst r) (snd w);
          files = snd r
      in and_then
           (if length files > 0
            then addFiles E files (uppy_log (Msg ''[DragDrop] Files dropped'') None s1)
            else Normal s1)
           (\<lambda>s'. call_optional DropKind (onDrop (opts s')) (fst w, s'))
           (\<lambda>s'. (fst w, s')))"

definition handleDrop :: "env \<Rightarrow> drag_event \<Rightarrow> state \<Rightarrow> frame completion" where
  "handleDrop E event s = handleDrop_resume E (handleDrop_begin event s)"

section \<open>The event loop\<close>

text \<open>
  Time passing: the clock moves on and every timer that is due fires. The function
  scheduled by \<open>handleDragLeave\<close> (lines 144-146) is
  \<open>this.setPluginState({ isDraggingOver: false })\<close>.
\<close>

definition is_due :: "nat \<Rightarrow> nat \<times> nat \<Rightarrow> bool" where
  "is_due t p = (snd p \<le> t)"

definition elapse :: "nat \<Rightarrow> state \<Rightarrow> state" where
  "elapse d s =
     (let t = clock s + d;
          due = filter (is_due t) (timers s);
          s1 = s\<lparr>clock := t, timers := filter (\<lambda>p. \<not> is_due t p) (timers s)\<rparr>
      in fold (\<lambda>p. setPluginState False) due s1)"

text \<open>What the browser dispatches. An error that leaves a handler is reported and the
  loop goes on; what the handler wrote before stays written.\<close>

datatype input =
    DragOver drag_event
  | DragLeave drag_event
  | Drop drag_event
  | Resolved
  | Change input_event
  | Elapse nat

fun settle :: "('e \<times> state) completion \<Rightarrow> state" where
  "settle (Normal w) = snd w"
| "settle (Throw e w) = emit (Uncaught e) (snd w)"

fun step :: "env \<Rightarrow> input \<Rightarrow> state \<Rightarrow> state" where
  "step E (DragOver event) s = settle (handleDragOver event s)"
| "step E (DragLeave event) s = settle (handleDragLeave event s)"
| "step E (Drop event) s =
     (let w = handleDrop_begin event s in (snd w)\<lparr>awaiting := awaiting (snd w) @ [fst w]\<rparr>)"
| "step E Resolved s =
     (case awaiting s of
        [] \<Rightarrow> s
      | event # rest \<Rightarrow> settle (handleDrop_resume E (event, s\<lparr>awaiting := rest\<rparr>)))"
| "step E (Change event) s = settle (onInputChange E event s)"
| "step E (Elapse d) s = elapse d s"

fun run :: "env \<Rightarrow> input list \<Rightarrow> state \<Rightarrow> state" where
  "run E [] s = s"
| "run E (i # is) s = run E is (step E i s)"

text \<open>The states passed through, one after each input.\<close>

fun states :: "env \<Rightarrow> input list \<Rightarrow> state \<Rightarrow> state list" where
  "states E [] s = []"
| "states E (i # is) s = step E i s # states E is (step E i s)"

text \<open>The batches handed to the orchestrator, in order.\<close>

fun submissions :: "action list \<Rightarrow> descriptor list list" where
  "submissions [] = []"
| "submissions (AddFiles ds # as) = ds # submissions as"
| "submissions (a # as) = submissions as"

section \<open>Invariant and sample inputs\<close>

text \<open>
  The plugin keeps one timer at most: every pending timer is the one whose handle is in
  \<open>removeDragOverClassTimeout\<close>. Each handler clears that handle before it schedules
  or drops it.
\<close>

definition tracked :: "state \<Rightarrow> bool" where
  "tracked s = list_all (\<lambda>p. removeDragOverClassTimeout s = Some (fst p)) (timers s)"

text \<open>The new part of a trace.\<close>

definition emitted :: "state \<Rightarrow> state \<Rightarrow> action list" where
  "emitted s s' = drop (length (trace s)) (trace s')"


text \<open>Along a list of states, \<open>isDraggingOver\<close> never goes from true to false; \<open>b\<close> is
  its value before the first of them.\<close>

fun no_reset :: "bool \<Rightarrow> state list \<Rightarrow> bool" where
  "no_reset b [] = True"
| "no_reset b (s # ss) = ((b \<longrightarrow> isDraggingOver s) \<and> no_reset (isDraggingOver s) ss)"

text \<open>Files: picked directly, found under a dropped directory, and one whose relative
  path is the empty string.\<close>

definition file_picked :: raw_file where
  "file_picked =
     \<lparr>fileName = ''a.txt'', fileType = ''text/plain'', fileRelativePath = Undefined, fileBytes = 1\<rparr>"

definition file_nested :: raw_file where
  "file_nested =
     \<lparr>fileName = ''a.pdf'', fileType = ''application/pdf'',
      fileRelativePath = Str ''docs/sub/a.pdf'', fileBytes = 2\<rparr>"

definition file_empty_path :: raw_file where
  "file_empty_path =
     \<lparr>fileName = ''b.txt'', fileType = ''text/plain'', fileRelativePath = Str [], fileBytes = 3\<rparr>"

text \<open>An orchestrator that registers every batch, and one that rejects every batch. The
  traversal of both is the fallback of \<open>getDroppedFiles\<close>: the files of the payload, no
  error.\<close>

definition accepting_env :: env where
  "accepting_env =
     \<lparr>uppy_addFiles = (\<lambda>ds u. (None, u\<lparr>registered := registered u @ ds\<rparr>)),
      getDroppedFiles = (\<lambda>dt. ([], items dt))\<rparr>"

definition rejecting_env :: env where
  "rejecting_env =
     \<lparr>uppy_addFiles = (\<lambda>ds u. (Some (Thrown ''maxNumberOfFiles''), u)),
      getDroppedFiles = (\<lambda>dt. ([], items dt))\<rparr>"

definition uppy_with :: "bool \<Rightarrow> uppy_state" where
  "uppy_with allow = \<lparr>allowNewUpload = allow, registered = []\<rparr>"

text \<open>Options with no observer, and with the three observers.\<close>

definition bare_opts :: options where
  "bare_opts =
     \<lparr>opt_id = None, target = Some (Str ''#drop''), inputName = None, width = None,
      height = None, noteText = None,
      onDragOver = None, onDragLeave = None, onDrop = None\<rparr>"

definition observed_opts :: options where
  "observed_opts =
     bare_opts\<lparr>onDragOver := Some (\<lambda>event. None), onDragLeave := Some (\<lambda>event. None),
       onDrop := Some (\<lambda>event. None)\<rparr>"

definition fresh :: "options \<Rightarrow> bool \<Rightarrow> state" where
  "fresh os allow = install (constructor (uppy_with allow) os)"

text \<open>A drag of one file, and a drag of text.\<close>

definition files_event :: drag_event where
  "files_event =
     \<lparr>dataTransfer = \<lparr>types = [''Files''], dropEffect = ''none'', items = [file_picked]\<rparr>,
      defaultPrevented = False, propagationStopped = False\<rparr>"

definition text_event :: drag_event where
  "text_event =
     \<lparr>dataTransfer = \<lparr>types = [''text/plain''], dropEffect = ''none'', items = []\<rparr>,
      defaultPrevented = False, propagationStopped = False\<rparr>"

definition picker_event :: input_event where
  "picker_event = \<lparr>target_files = [file_picked, file_nested], target_value = Str ''a.txt''\<rparr>"

text \<open>The plugin hovering after an accepted drag-over, and after the drag-leave that
  follows it: hovering still, the debounce timer pending.\<close>

definition hovering :: state where
  "hovering = step accepting_env (DragOver files_event) (fresh observed_opts True)"

definition leaving :: state where
  "leaving = step accepting_env (DragLeave files_event) hovering"

section \<open>What each method does, in closed form\<close>


lemmas prims = emit_def preventDefault_def stopPropagation_def setDropEffect_def
  clearTimeout_def setTimeout_def setPluginState_def uppy_log_def call_uppy_addFiles_def
  invoke_def call_unguarded_def call_optional_def

lemmas samples = file_picked_def file_nested_def file_empty_path_def accepting_env_def
  rejecting_env_def uppy_with_def bare_opts_def observed_opts_def fresh_def files_event_def
  text_event_def picker_event_def hovering_def leaving_def constructor_def install_def
  defaultOpts_def merge_opts_def merge_field_def read_key_def or_else_def

lemma submissions_append: "submissions (xs @ ys) = submissions xs @ submissions ys"
  by (induction xs rule: submissions.induct) simp_all

lemma submissions_logs: "submissions (map (\<lambda>e. Log (f e) l) es) = []"
  by (induction es) simp_all

lemma addFiles_eq:
  "addFiles E files s =
     (let ds = map (build_descriptor (plugin_id s)) files;
          r = uppy_addFiles E ds (uppy s)
      in Normal (s\<lparr>uppy := snd r,
                   trace := trace s @ AddFiles ds #
                     (case fst r of None \<Rightarrow> [] | Some e \<Rightarrow> [Log (Err e) None])\<rparr>))"
  by (simp add: addFiles_def prims Let_def split: option.splits)

lemma fold_logDropError:
  "fold logDropError es s = s\<lparr>trace := trace s @ map (\<lambda>e. Log (Err e) (Some ''error'')) es\<rparr>"
  by (induction es arbitrary: s) (simp_all add: logDropError_def prims)

lemma handleDrop_begin_eq:
  "handleDrop_begin event s =
     (event\<lparr>defaultPrevented := True, propagationStopped := True\<rparr>,
      s\<lparr>isDraggingOver := False,
        timers := filter (\<lambda>p. Some (fst p) \<noteq> removeDragOverClassTimeout s) (timers s),
        trace := trace s @ [PreventDefault, StopPropagation,
          ClearTimeout (removeDragOverClassTimeout s), SetPluginState False, GetDroppedFiles]\<rparr>)"
  by (simp add: handleDrop_begin_def prims Let_def)

lemma handleDrop_resume_eq:
  "handleDrop_resume E (ev, s) =
     (let r = getDroppedFiles E (dataTransfer ev);
          ds = map (build_descriptor (plugin_id s)) (snd r);
          a = uppy_addFiles E ds (uppy s);
          s1 = s\<lparr>uppy := (if snd r = [] then uppy s else snd a),
                 trace := trace s @ map (\<lambda>e. Log (Err e) (Some ''error'')) (fst r) @
                   (if snd r = [] then []
                    else [Log (Msg ''[DragDrop] Files dropped'') None, AddFiles ds] @
                      (case fst a of None \<Rightarrow> [] | Some e \<Rightarrow> [Log (Err e) None]))\<rparr>;
          s2 = s1\<lparr>trace := trace s1 @ [Invoke DropKind ev]\<rparr>
      in case onDrop (opts s) of
           None \<Rightarrow> Normal (ev, s1)
         | Some f \<Rightarrow> (case f ev of None \<Rightarrow> Normal (ev, s2) | Some e \<Rightarrow> Throw e (ev, s2)))"
  by (simp add: handleDrop_resume_def addFiles_eq fold_logDropError prims Let_def
      split: option.splits)


lemma handleDrop_emitted:
  "emitted s (snd (world_of (handleDrop E event s))) =
     [PreventDefault, StopPropagation, ClearTimeout (removeDragOverClassTimeout s),
      SetPluginState False, GetDroppedFiles] @
     (map (\<lambda>e. Log (Err e) (Some ''error'')) (fst (getDroppedFiles E (dataTransfer event))) @
      (if snd (getDroppedFiles E (dataTransfer event)) = [] then []
       else [Log (Msg ''[DragDrop] Files dropped'') None,
             AddFiles (map (build_descriptor (plugin_id s))
               (snd (getDroppedFiles E (dataTransfer event))))] @
         (case fst (uppy_addFiles E (map (build_descriptor (plugin_id s))
                 (snd (getDroppedFiles E (dataTransfer event)))) (uppy s)) of
            None \<Rightarrow> [] | Some e \<Rightarrow> [Log (Err e) None]))) @
     (case onDrop (opts s) of
        None \<Rightarrow> []
      | Some f \<Rightarrow> [Invoke DropKind (event\<lparr>defaultPrevented := True, propagationStopped := True\<rparr>)])"
  by (simp add: handleDrop_def handleDrop_begin_eq handleDrop_resume_eq emitted_def Let_def
      split: option.splits)

lemma handleDrop_post:
  "isDraggingOver (snd (world_of (handleDrop E event s))) = False"
  "timers (snd (world_of (handleDrop E event s))) =
     filter (\<lambda>p. Some (fst p) \<noteq> removeDragOverClassTimeout s) (timers s)"
  "clock (snd (world_of (handleDrop E event s))) = clock s"
  "uppy (snd (world_of (handleDrop E event s))) =
     (if snd (getDroppedFiles E (dataTransfer event)) = [] then uppy s
      else snd (uppy_addFiles E (map (build_descriptor (plugin_id s))
             (snd (getDroppedFiles E (dataTransfer event)))) (uppy s)))"
  "raised (handleDrop E event s) =
     (case onDrop (opts s) of
        None \<Rightarrow> None
      | Some f \<Rightarrow> f (event\<lparr>defaultPrevented := True, propagationStopped := True\<rparr>))"
  by (simp_all add: handleDrop_def handleDrop_begin_eq handleDrop_resume_eq Let_def
      split: option.splits)

lemma build_descriptor_sel:
  "data (build_descriptor pid f) = f"
  "name (build_descriptor pid f) = fileName f"
  "type (build_descriptor pid f) = fileType f"
  "source (build_descriptor pid f) = pid"
  by (simp_all add: build_descriptor_def)

lemma handleDragOver_reject:
  assumes "\<not> hasFiles event \<or> \<not> allowNewUpload (uppy s)"
  shows "handleDragOver event s =
     Normal (event\<lparr>defaultPrevented := True, propagationStopped := True,
                   dataTransfer := (dataTransfer event)\<lparr>dropEffect := ''none''\<rparr>\<rparr>,
             s\<lparr>timers := filter (\<lambda>p. Some (fst p) \<noteq> removeDragOverClassTimeout s) (timers s),
               trace := trace s @ [PreventDefault, StopPropagation, SetDropEffect ''none'',
                 ClearTimeout (removeDragOverClassTimeout s)]\<rparr>)"
  using assms by (auto simp add: handleDragOver_def hasFiles_def prims Let_def)

lemma handleDragOver_accept:
  assumes "hasFiles event" and "allowNewUpload (uppy s)"
  shows "handleDragOver event s =
     (let ev = event\<lparr>defaultPrevented := True, propagationStopped := True,
                   dataTransfer := (dataTransfer event)\<lparr>dropEffect := ''copy''\<rparr>\<rparr>;
          s3 = s\<lparr>isDraggingOver := True,
                 timers := filter (\<lambda>p. Some (fst p) \<noteq> removeDragOverClassTimeout s) (timers s),
                 trace := trace s @ [PreventDefault, StopPropagation, SetDropEffect ''copy'',
                   ClearTimeout (removeDragOverClassTimeout s), SetPluginState True]\<rparr>;
          s4 = s3\<lparr>trace := trace s3 @ [Invoke DragOverKind ev]\<rparr>
      in case onDragOver (opts s) of
           None \<Rightarrow> Throw (TypeError ''callback is not a function'') (ev, s3)
         | Some f \<Rightarrow> (case f ev of None \<Rightarrow> Normal (ev, s4) | Some e \<Rightarrow> Throw e (ev, s4)))"
  using assms by (simp add: handleDragOver_def hasFiles_def prims Let_def split: option.splits)

lemma handleDragLeave_eq:
  "handleDragLeave event s =
     (let ev = event\<lparr>defaultPrevented := True, propagationStopped := True\<rparr>;
          s2 = s\<lparr>removeDragOverClassTimeout := Some (nextTimer s),
                 timers := filter (\<lambda>p. Some (fst p) \<noteq> removeDragOverClassTimeout s) (timers s)
                   @ [(nextTimer s, clock s + 50)],
                 nextTimer := Suc (nextTimer s),
                 trace := trace s @ [PreventDefault, StopPropagation,
                   ClearTimeout (removeDragOverClassTimeout s), SetTimeout (nextTimer s) 50]\<rparr>;
          s3 = s2\<lparr>trace := trace s2 @ [Invoke DragLeaveKind ev]\<rparr>
      in case onDragLeave (opts s) of
           None \<Rightarrow> Throw (TypeError ''callback is not a function'') (ev, s2)
         | Some f \<Rightarrow> (case f ev of None \<Rightarrow> Normal (ev, s3) | Some e \<Rightarrow> Throw e (ev, s3)))"
  by (simp add: handleDragLeave_def prims Let_def split: option.splits)

lemma onInputChange_eq:
  "onInputChange E event s =
     (let ds = map (build_descriptor (plugin_id s)) (target_files event);
          r = uppy_addFiles E ds (uppy s)
      in Normal (event\<lparr>target_value := Null\<rparr>,
           s\<lparr>uppy := (if target_files event = [] then uppy s else snd r),
             trace := trace s @
               (if target_files event = [] then []
                else [Log (Msg ''[DragDrop] Files selected through input'') None, AddFiles ds] @
                  (case fst r of None \<Rightarrow> [] | Some e \<Rightarrow> [Log (Err e) None])) @
               [ClearInput]\<rparr>))"
  by (simp add: onInputChange_def toArray_def addFiles_eq prims Let_def split: option.splits)

lemma tracked_filter:
  "tracked s \<Longrightarrow> filter (\<lambda>p. Some (fst p) \<noteq> removeDragOverClassTimeout s) (timers s) = []"
  by (auto simp add: tracked_def list_all_iff filter_empty_conv)

lemma settle_fields:
  "isDraggingOver (settle c) = isDraggingOver (snd (world_of c))"
  "timers (settle c) = timers (snd (world_of c))"
  "clock (settle c) = clock (snd (world_of c))"
  "uppy (settle c) = uppy (snd (world_of c))"
  "opts (settle c) = opts (snd (world_of c))"
  "nextTimer (settle c) = nextTimer (snd (world_of c))"
  "removeDragOverClassTimeout (settle c) = removeDragOverClassTimeout (snd (world_of c))"
  by (cases c; simp add: emit_def)+

lemma elapse_idle: "timers s = [] \<Longrightarrow> elapse d s = s\<lparr>clock := clock s + d\<rparr>"
  by (simp add: elapse_def)

lemma elapse_single:
  "timers s = [(i, t)] \<Longrightarrow>
   elapse d s =
     (if t \<le> clock s + d
      then s\<lparr>isDraggingOver := False, timers := [], clock := clock s + d,
             trace := trace s @ [SetPluginState False]\<rparr>
      else s\<lparr>clock := clock s + d\<rparr>)"
  by (simp add: elapse_def is_due_def prims)

lemma step_DragOver:
  assumes "tracked s"
  shows "timers (step E (DragOver ev) s) = []"
    and "isDraggingOver (step E (DragOver ev) s) =
           (isDraggingOver s \<or> hasFiles ev \<and> allowNewUpload (uppy s))"
    and "clock (step E (DragOver ev) s) = clock s"
    and "uppy (step E (DragOver ev) s) = uppy s"
proof -
  show "timers (step E (DragOver ev) s) = []"
    using assms
    by (cases "hasFiles ev \<and> allowNewUpload (uppy s)")
       (auto simp add: settle_fields handleDragOver_accept handleDragOver_reject tracked_filter
          Let_def split: option.splits)
  show "isDraggingOver (step E (DragOver ev) s) =
           (isDraggingOver s \<or> hasFiles ev \<and> allowNewUpload (uppy s))"
    by (cases "hasFiles ev \<and> allowNewUpload (uppy s)")
       (auto simp add: settle_fields handleDragOver_accept handleDragOver_reject
          Let_def split: option.splits)
  show "clock (step E (DragOver ev) s) = clock s"
    by (cases "hasFiles ev \<and> allowNewUpload (uppy s)")
       (auto simp add: settle_fields handleDragOver_accept handleDragOver_reject
          Let_def split: option.splits)
  show "uppy (step E (DragOver ev) s) = uppy s"
    by (cases "hasFiles ev \<and> allowNewUpload (uppy s)")
       (auto simp add: settle_fields handleDragOver_accept handleDragOver_reject
          Let_def split: option.splits)
qed

lemma step_DragLeave:
  assumes "tracked s"
  shows "timers (step E (DragLeave ev) s) = [(nextTimer s, clock s + 50)]"
    and "isDraggingOver (step E (DragLeave ev) s) = isDraggingOver s"
    and "clock (step E (DragLeave ev) s) = clock s"
    and "uppy (step E (DragLeave ev) s) = uppy s"
    and "removeDragOverClassTimeout (step E (DragLeave ev) s) = Some (nextTimer s)"
  using assms
  by (simp_all add: settle_fields handleDragLeave_eq tracked_filter Let_def split: option.splits)



section \<open>One timer at most\<close>

lemma fold_reset_fields:
  "timers (fold (\<lambda>p. setPluginState False) ps s) = timers s"
  "removeDragOverClassTimeout (fold (\<lambda>p. setPluginState False) ps s) = removeDragOverClassTimeout s"
  "clock (fold (\<lambda>p. setPluginState False) ps s) = clock s"
  "uppy (fold (\<lambda>p. setPluginState False) ps s) = uppy s"
  "opts (fold (\<lambda>p. setPluginState False) ps s) = opts s"
  by (induction ps arbitrary: s; simp add: setPluginState_def emit_def)+

lemma elapse_fields:
  "timers (elapse d s) = filter (\<lambda>p. \<not> is_due (clock s + d) p) (timers s)"
  "removeDragOverClassTimeout (elapse d s) = removeDragOverClassTimeout s"
  "clock (elapse d s) = clock s + d"
  "uppy (elapse d s) = uppy s"
  "opts (elapse d s) = opts s"
  by (simp_all add: elapse_def Let_def fold_reset_fields)

lemma tracked_nil: "timers s = [] \<Longrightarrow> tracked s"
  by (simp add: tracked_def)

lemma tracked_elapse: "tracked s \<Longrightarrow> tracked (elapse d s)"
  by (simp add: tracked_def elapse_fields list_all_iff)

lemma tracked_DragLeave: "tracked s \<Longrightarrow> tracked (step E (DragLeave ev) s)"
  using step_DragLeave(1,5) [of s E ev] by (simp add: tracked_def del: step.simps)

lemma tracked_Drop: "tracked s \<Longrightarrow> tracked (step E (Drop ev) s)"
  by (simp add: tracked_def handleDrop_begin_eq Let_def list_all_iff)

lemma handleDrop_resume_fields:
  "timers (snd (world_of (handleDrop_resume E (ev, s)))) = timers s"
  "removeDragOverClassTimeout (snd (world_of (handleDrop_resume E (ev, s)))) =
     removeDragOverClassTimeout s"
  "isDraggingOver (snd (world_of (handleDrop_resume E (ev, s)))) = isDraggingOver s"
  "clock (snd (world_of (handleDrop_resume E (ev, s)))) = clock s"
  by (simp_all add: handleDrop_resume_eq Let_def split: option.splits)

lemma tracked_Resolved: "tracked s \<Longrightarrow> tracked (step E Resolved s)"
  by (cases "awaiting s")
     (simp_all add: tracked_def settle_fields handleDrop_resume_fields)

lemma tracked_Change: "tracked s \<Longrightarrow> tracked (step E (Change ev) s)"
  by (simp add: tracked_def settle_fields onInputChange_eq Let_def)

lemma tracked_step: "tracked s \<Longrightarrow> tracked (step E i s)"
proof (cases i)
  case (DragOver ev)
  assume "tracked s"
  then have "timers (step E (DragOver ev) s) = []" by (rule step_DragOver)
  then show ?thesis using DragOver by (simp only: tracked_nil)
next
  case (Elapse d)
  assume "tracked s"
  then show ?thesis using Elapse by (simp add: tracked_elapse)
qed (simp_all only: tracked_DragLeave tracked_Drop tracked_Resolved tracked_Change)

lemma tracked_run: "tracked s \<Longrightarrow> tracked (run E is s)"
  by (induction "is" arbitrary: s) (simp_all add: tracked_step)

lemma tracked_fresh: "tracked (fresh os allow)"
  by (simp add: tracked_def fresh_def install_def constructor_def setPluginState_def emit_def)

text \<open>A drag-leave or a drag-over, and time passing after it.\<close>

lemma leave_then_elapse:
  assumes "tracked s"
  shows "isDraggingOver (elapse d (step E (DragLeave ev) s)) = (d < 50 \<and> isDraggingOver s)"
    and "timers (elapse d (step E (DragLeave ev) s)) =
           (if d < 50 then [(nextTimer s, clock s + 50)] else [])"
    and "removeDragOverClassTimeout (elapse d (step E (DragLeave ev) s)) = Some (nextTimer s)"
    and "uppy (elapse d (step E (DragLeave ev) s)) = uppy s"
proof -
  let ?s1 = "step E (DragLeave ev) s"
  have t: "timers ?s1 = [(nextTimer s, clock s + 50)]"
    and c: "clock ?s1 = clock s"
    and i: "isDraggingOver ?s1 = isDraggingOver s"
    and h: "removeDragOverClassTimeout ?s1 = Some (nextTimer s)"
    and u: "uppy ?s1 = uppy s"
    using step_DragLeave [OF assms] by blast+
  show "isDraggingOver (elapse d ?s1) = (d < 50 \<and> isDraggingOver s)"
    using elapse_single [OF t, of d] c i by (auto simp del: step.simps)
  show "timers (elapse d ?s1) = (if d < 50 then [(nextTimer s, clock s + 50)] else [])"
    using elapse_single [OF t, of d] c t by (auto simp del: step.simps)
  show "removeDragOverClassTimeout (elapse d ?s1) = Some (nextTimer s)"
    using h by (simp add: elapse_fields del: step.simps)
  show "uppy (elapse d ?s1) = uppy s"
    using u by (simp add: elapse_fields del: step.simps)
qed

lemma tracked_leave_elapse: "tracked s \<Longrightarrow> tracked (elapse d (step E (DragLeave ev) s))"
  by (simp only: tracked_elapse tracked_DragLeave)

lemma over_then_elapse:
  assumes "tracked s"
  shows "isDraggingOver (elapse d (step E (DragOver ev) s)) =
           (isDraggingOver s \<or> hasFiles ev \<and> allowNewUpload (uppy s))"
    and "timers (elapse d (step E (DragOver ev) s)) = []"
    and "uppy (elapse d (step E (DragOver ev) s)) = uppy s"
proof -
  let ?s1 = "step E (DragOver ev) s"
  have t: "timers ?s1 = []" using assms by (rule step_DragOver)
  have i: "isDraggingOver ?s1 = (isDraggingOver s \<or> hasFiles ev \<and> allowNewUpload (uppy s))"
    using assms by (rule step_DragOver)
  have u: "uppy ?s1 = uppy s" using assms by (rule step_DragOver)
  show "isDraggingOver (elapse d ?s1) =
           (isDraggingOver s \<or> hasFiles ev \<and> allowNewUpload (uppy s))"
    using elapse_idle [OF t, of d] i by (simp del: step.simps)
  show "timers (elapse d ?s1) = []"
    using elapse_idle [OF t, of d] t by (simp del: step.simps)
  show "uppy (elapse d ?s1) = uppy s"
    using u by (simp add: elapse_fields del: step.simps)
qed

lemma debounce_sequence:
  assumes t: "tracked s" and acc: "hasFiles ev1" "allowNewUpload (uppy s)" and b: "b < 50"
  shows "list_all isDraggingOver
           (states E [DragOver ev1, Elapse a, DragLeave ev2, Elapse b, DragOver ev3, Elapse c] s)"
proof -
  let ?s1 = "step E (DragOver ev1) s"
  let ?s2 = "elapse a ?s1"
  let ?s3 = "step E (DragLeave ev2) ?s2"
  let ?s4 = "elapse b ?s3"
  let ?s5 = "step E (DragOver ev3) ?s4"
  let ?s6 = "elapse c ?s5"
  have i1: "isDraggingOver ?s1" using step_DragOver(2) [OF t, of E ev1] acc by blast
  have i2: "isDraggingOver ?s2" using over_then_elapse(1) [OF t, of a E ev1] acc by blast
  have t2: "tracked ?s2" using over_then_elapse(2) [OF t, of a E ev1] by (rule tracked_nil)
  have i3: "isDraggingOver ?s3" using step_DragLeave(2) [OF t2, of E ev2] i2 by blast
  have i4: "isDraggingOver ?s4" using leave_then_elapse(1) [OF t2, of b E ev2] b i2 by blast
  have t4: "tracked ?s4" using t2 by (rule tracked_leave_elapse)
  have i5: "isDraggingOver ?s5" using step_DragOver(2) [OF t4, of E ev3] i4 by blast
  have i6: "isDraggingOver ?s6" using over_then_elapse(1) [OF t4, of c E ev3] i4 by blast
  have eq: "states E [DragOver ev1, Elapse a, DragLeave ev2, Elapse b, DragOver ev3, Elapse c] s =
          [?s1, ?s2, ?s3, ?s4, ?s5, ?s6]"
    by (simp del: step.simps(1,2))
  show ?thesis
    unfolding eq using i1 i2 i3 i4 i5 i6 by (simp del: step.simps)
qed

lemma debounce_no_reset:
  assumes t: "tracked s" and b: "b < 50"
  shows "no_reset (isDraggingOver s)
           (states E [DragOver ev1, Elapse a, DragLeave ev2, Elapse b, DragOver ev3, Elapse c] s)"
proof -
  let ?s1 = "step E (DragOver ev1) s"
  let ?s2 = "elapse a ?s1"
  let ?s3 = "step E (DragLeave ev2) ?s2"
  let ?s4 = "elapse b ?s3"
  let ?s5 = "step E (DragOver ev3) ?s4"
  let ?s6 = "elapse c ?s5"
  have i1: "isDraggingOver s \<longrightarrow> isDraggingOver ?s1"
    using step_DragOver(2) [OF t, of E ev1] by blast
  have i2: "isDraggingOver ?s2 = isDraggingOver ?s1"
    using over_then_elapse(1) [OF t, of a E ev1] step_DragOver(2) [OF t, of E ev1] by blast
  have t2: "tracked ?s2" using over_then_elapse(2) [OF t, of a E ev1] by (rule tracked_nil)
  have i3: "isDraggingOver ?s3 = isDraggingOver ?s2" using step_DragLeave(2) [OF t2, of E ev2] .
  have i4: "isDraggingOver ?s4 = isDraggingOver ?s3"
    using leave_then_elapse(1) [OF t2, of b E ev2] b i3 by blast
  have t4: "tracked ?s4" using t2 by (rule tracked_leave_elapse)
  have i5: "isDraggingOver ?s4 \<longrightarrow> isDraggingOver ?s5"
    using step_DragOver(2) [OF t4, of E ev3] by blast
  have i6: "isDraggingOver ?s6 = isDraggingOver ?s5"
    using over_then_elapse(1) [OF t4, of c E ev3] step_DragOver(2) [OF t4, of E ev3] by blast
  have eq: "states E [DragOver ev1, Elapse a, DragLeave ev2, Elapse b, DragOver ev3, Elapse c] s =
          [?s1, ?s2, ?s3, ?s4, ?s5, ?s6]"
    by (simp del: step.simps(1,2))
  show ?thesis
    unfolding eq using i1 i2 i3 i4 i5 i6 by (simp del: step.simps)
qed

lemma reachable_tracked: "tracked (run E inputs (fresh os allow))"
  using tracked_fresh by (rule tracked_run)

text \<open>The two sample states.\<close>

lemma hovering_eval:
  "isDraggingOver hovering" "timers hovering = []" "removeDragOverClassTimeout hovering = None"
  "allowNewUpload (uppy hovering)" "onDragLeave (opts hovering) = Some (\<lambda>event. None)"
  "nextTimer hovering = 1" "clock hovering = 0"
  by (simp_all add: handleDragOver_def hasFiles_def Let_def samples prims)

lemma leaving_eval:
  "isDraggingOver leaving" "timers leaving = [(1, 50)]"
  "removeDragOverClassTimeout leaving = Some 1" "tracked leaving"
  by (simp_all add: handleDragOver_def handleDragLeave_def hasFiles_def tracked_def Let_def samples prims)

section \<open>The descriptor builder and the batch submitter\<close>

text \<open>
  Claim C7, as the specification states it, fails on a file whose \<open>relativePath\<close> is the
  empty string: \<open>'' || null\<close> is \<open>null\<close>, so the descriptor does not carry the value
  supplied.
\<close>

theorem build_descriptor_empty_path_counterexample:
  "fileRelativePath file_empty_path = Str [] \<and>
   relativePath (meta (build_descriptor ''DragDrop'' file_empty_path)) = Null \<and>
   relativePath (meta (build_descriptor ''DragDrop'' file_empty_path)) \<noteq>
     fileRelativePath file_empty_path"
  by (simp add: build_descriptor_def file_empty_path_def or_else_def)

text \<open>
  Claim C7, amended. The descriptor built for a file carries the file's \<open>relativePath\<close>
  unchanged whenever it is a non-empty string, and \<open>null\<close> exactly when the file has no
  \<open>relativePath\<close> (\<open>undefined\<close> or \<open>null\<close>) or an empty one. The other fields are the
  plugin's id, the file's name and type, and the file itself. The builder is a total
  function: it cannot fail, and it computes no path.
\<close>

theorem build_descriptor_relativePath:
  "relativePath (meta (build_descriptor pid f)) =
     (if fileRelativePath f = Undefined \<or> fileRelativePath f = Null \<or> fileRelativePath f = Str []
      then Null else fileRelativePath f) \<and>
   source (build_descriptor pid f) = pid \<and>
   name (build_descriptor pid f) = fileName f \<and>
   type (build_descriptor pid f) = fileType f \<and>
   data (build_descriptor pid f) = f"
  by (cases "fileRelativePath f") (simp_all add: build_descriptor_def or_else_def)

theorem build_descriptor_relativePath_witness:
  "relativePath (meta (build_descriptor ''DragDrop'' file_nested)) = Str ''docs/sub/a.pdf'' \<and>
   relativePath (meta (build_descriptor ''DragDrop'' file_picked)) = Null \<and>
   data (build_descriptor ''DragDrop'' file_nested) = file_nested"
  using build_descriptor_relativePath [where pid = "''DragDrop''" and f = file_nested]
    build_descriptor_relativePath [where pid = "''DragDrop''" and f = file_picked]
  by (simp add: file_nested_def file_picked_def)

text \<open>
  Claim C8. When the orchestrator's \<open>addFiles\<close> raises on the batch, \<open>addFiles\<close> of the
  plugin returns normally: the trace shows the submission followed by the error handed
  to \<open>uppy.log\<close>, and nothing else of the plugin has changed. Neither channel raises
  because of it: \<open>onInputChange\<close> returns, and \<open>handleDrop\<close> raises only what its own
  \<open>onDrop\<close> observer raises.
\<close>

theorem addFiles_rejection_logged:
  assumes "fst (uppy_addFiles E (map (build_descriptor (plugin_id s)) files) (uppy s)) = Some err"
  shows "addFiles E files s =
           Normal (s\<lparr>uppy := snd (uppy_addFiles E (map (build_descriptor (plugin_id s)) files) (uppy s)),
                     trace := trace s @ [AddFiles (map (build_descriptor (plugin_id s)) files),
                                         Log (Err err) None]\<rparr>) \<and>
         (target_files event = files \<longrightarrow> raised (onInputChange E event s) = None) \<and>
         (snd (getDroppedFiles E (dataTransfer dropped)) = files \<longrightarrow>
            raised (handleDrop E dropped s) =
              (case onDrop (opts s) of
                 None \<Rightarrow> None
               | Some f \<Rightarrow> f (dropped\<lparr>defaultPrevented := True, propagationStopped := True\<rparr>)))"
  using assms
  by (simp add: addFiles_eq onInputChange_eq handleDrop_def handleDrop_begin_eq
      handleDrop_resume_eq Let_def split: option.splits)

theorem addFiles_rejection_logged_witness:
  "addFiles rejecting_env [file_picked] (fresh bare_opts True) =
     Normal ((fresh bare_opts True)\<lparr>trace := [SetPluginState False,
        AddFiles [build_descriptor ''DragDrop'' file_picked],
        Log (Err (Thrown ''maxNumberOfFiles'')) None]\<rparr>) \<and>
   raised (handleDrop rejecting_env files_event (fresh bare_opts True)) = None"
  using addFiles_rejection_logged [where E = rejecting_env and s = "fresh bare_opts True"
      and files = "[file_picked]" and err = "Thrown ''maxNumberOfFiles''"
      and dropped = files_event and event = picker_event]
  by (simp add: samples prims)

section \<open>The two acquisition channels\<close>

text \<open>
  Claim C9. A change event of the picker that carries at least one file leads to exactly
  one submission. The batch has one descriptor for each file of the event, in order:
  its \<open>data\<close> is the file, its \<open>name\<close> and \<open>type\<close> are the file's, its \<open>source\<close> is the
  plugin's id. The orchestrator's \<open>addFiles\<close> is applied to that batch: the orchestrator
  is afterwards in the state its \<open>addFiles\<close> leaves it in. The \<open>allowNewUpload\<close> flag is
  not read: all of this holds the same from a state in which the flag is false, and
  \<open>onInputChange\<close> returns in both.
\<close>

theorem onInputChange_ignores_allowNewUpload:
  assumes "target_files event \<noteq> []"
  shows "(\<exists>ds. submissions (emitted s (snd (world_of (onInputChange E event s)))) = [ds] \<and>
            ds = map (build_descriptor (plugin_id s)) (target_files event) \<and>
            map data ds = target_files event \<and>
            map name ds = map fileName (target_files event) \<and>
            map type ds = map fileType (target_files event) \<and>
            map source ds = map (\<lambda>f. plugin_id s) (target_files event) \<and>
            uppy (snd (world_of (onInputChange E event s))) = snd (uppy_addFiles E ds (uppy s))) \<and>
         (\<exists>ds. submissions (emitted (s\<lparr>uppy := (uppy s)\<lparr>allowNewUpload := False\<rparr>\<rparr>)
               (snd (world_of (onInputChange E event (s\<lparr>uppy := (uppy s)\<lparr>allowNewUpload := False\<rparr>\<rparr>))))) =
              [ds] \<and>
            ds = map (build_descriptor (plugin_id s)) (target_files event) \<and>
            map data ds = target_files event \<and>
            map name ds = map fileName (target_files event) \<and>
            map type ds = map fileType (target_files event) \<and>
            map source ds = map (\<lambda>f. plugin_id s) (target_files event) \<and>
            uppy (snd (world_of (onInputChange E event (s\<lparr>uppy := (uppy s)\<lparr>allowNewUpload := False\<rparr>\<rparr>)))) =
              snd (uppy_addFiles E ds ((uppy s)\<lparr>allowNewUpload := False\<rparr>))) \<and>
         raised (onInputChange E event s) = None \<and>
         raised (onInputChange E event (s\<lparr>uppy := (uppy s)\<lparr>allowNewUpload := False\<rparr>\<rparr>)) = None"
  using assms
  by (simp add: onInputChange_eq emitted_def Let_def submissions_append build_descriptor_sel
      comp_def split: option.splits)

theorem onInputChange_ignores_allowNewUpload_witness:
  "\<not> allowNewUpload (uppy (fresh bare_opts False)) \<and>
   submissions (emitted (fresh bare_opts False)
      (snd (world_of (onInputChange accepting_env picker_event (fresh bare_opts False))))) =
     [[\<lparr>source = ''DragDrop'', name = ''a.txt'', type = ''text/plain'', data = file_picked,
        meta = \<lparr>relativePath = Null\<rparr>\<rparr>,
       \<lparr>source = ''DragDrop'', name = ''a.pdf'', type = ''application/pdf'', data = file_nested,
        meta = \<lparr>relativePath = Str ''docs/sub/a.pdf''\<rparr>\<rparr>]] \<and>
   registered (uppy (snd (world_of (onInputChange accepting_env picker_event (fresh bare_opts False))))) =
     [\<lparr>source = ''DragDrop'', name = ''a.txt'', type = ''text/plain'', data = file_picked,
       meta = \<lparr>relativePath = Null\<rparr>\<rparr>,
      \<lparr>source = ''DragDrop'', name = ''a.pdf'', type = ''application/pdf'', data = file_nested,
       meta = \<lparr>relativePath = Str ''docs/sub/a.pdf''\<rparr>\<rparr>]"
proof -
  have p: "plugin_id (fresh bare_opts False) = ''DragDrop''"
    "uppy (fresh bare_opts False) = \<lparr>allowNewUpload = False, registered = []\<rparr>"
    "target_files picker_event = [file_picked, file_nested]"
    by (simp_all add: samples prims)
  have d: "build_descriptor ''DragDrop'' file_picked =
      \<lparr>source = ''DragDrop'', name = ''a.txt'', type = ''text/plain'', data = file_picked,
       meta = \<lparr>relativePath = Null\<rparr>\<rparr>"
    "build_descriptor ''DragDrop'' file_nested =
      \<lparr>source = ''DragDrop'', name = ''a.pdf'', type = ''application/pdf'', data = file_nested,
       meta = \<lparr>relativePath = Str ''docs/sub/a.pdf''\<rparr>\<rparr>"
    by (simp_all add: build_descriptor_def or_else_def file_picked_def file_nested_def)
  show ?thesis
    using onInputChange_ignores_allowNewUpload [where event = picker_event and E = accepting_env
      and s = "fresh bare_opts False"]
    by (simp add: p d accepting_env_def)
qed

text \<open>
  Claim C1, as the specification states it, fails: \<open>handleDrop\<close> does not read
  \<open>allowNewUpload\<close>. With the flag false, a drop of one file submits the file's
  descriptor, and an orchestrator that accepts the batch registers it.
\<close>

theorem handleDrop_uploads_disallowed_counterexample:
  "\<not> allowNewUpload (uppy (fresh bare_opts False)) \<and>
   submissions (emitted (fresh bare_opts False)
      (snd (world_of (handleDrop accepting_env files_event (fresh bare_opts False))))) =
     [[build_descriptor ''DragDrop'' file_picked]] \<and>
   registered (uppy (snd (world_of (handleDrop accepting_env files_event (fresh bare_opts False))))) =
     [build_descriptor ''DragDrop'' file_picked]"
  by (simp add: handleDrop_def handleDrop_begin_eq handleDrop_resume_eq emitted_def Let_def
      samples prims)

text \<open>
  Claim C1, amended. \<open>handleDrop\<close> reads neither the type manifest nor
  \<open>allowNewUpload\<close>. Whatever they are, it submits nothing when \<open>getDroppedFiles\<close>
  resolves to no file, and otherwise submits one batch: the descriptors of the files
  that resolved, each holding its file, handed to the orchestrator's \<open>addFiles\<close>, which
  leaves the orchestrator in the state it chooses. (A payload without files and a closed orchestrator are turned away at
  drag-over, by the drop effect \<open>none\<close>.)
\<close>

theorem handleDrop_submits_what_resolves:
  "submissions (emitted s (snd (world_of (handleDrop E event s)))) =
     (if snd (getDroppedFiles E (dataTransfer event)) = [] then []
      else [map (build_descriptor (plugin_id s)) (snd (getDroppedFiles E (dataTransfer event)))]) \<and>
   map (map data) (submissions (emitted s (snd (world_of (handleDrop E event s))))) =
     (if snd (getDroppedFiles E (dataTransfer event)) = [] then []
      else [snd (getDroppedFiles E (dataTransfer event))]) \<and>
   uppy (snd (world_of (handleDrop E event s))) =
     (if snd (getDroppedFiles E (dataTransfer event)) = [] then uppy s
      else snd (uppy_addFiles E
             (map (build_descriptor (plugin_id s)) (snd (getDroppedFiles E (dataTransfer event))))
             (uppy s)))"
  by (simp add: handleDrop_emitted handleDrop_post submissions_append submissions_logs
      build_descriptor_sel comp_def split: option.splits)

theorem handleDrop_submits_what_resolves_witness:
  "submissions (emitted (fresh bare_opts True)
      (snd (world_of (handleDrop accepting_env text_event (fresh bare_opts True))))) = [] \<and>
   uppy (snd (world_of (handleDrop accepting_env text_event (fresh bare_opts True)))) =
     \<lparr>allowNewUpload = True, registered = []\<rparr> \<and>
   submissions (emitted (fresh bare_opts False)
      (snd (world_of (handleDrop accepting_env files_event (fresh bare_opts False))))) =
     [[\<lparr>source = ''DragDrop'', name = ''a.txt'', type = ''text/plain'', data = file_picked,
        meta = \<lparr>relativePath = Null\<rparr>\<rparr>]] \<and>
   uppy (snd (world_of (handleDrop accepting_env files_event (fresh bare_opts False)))) =
     \<lparr>allowNewUpload = False,
      registered = [\<lparr>source = ''DragDrop'', name = ''a.txt'', type = ''text/plain'',
        data = file_picked, meta = \<lparr>relativePath = Null\<rparr>\<rparr>]\<rparr>"
proof -
  have p: "plugin_id (fresh bare_opts True) = ''DragDrop''"
    "plugin_id (fresh bare_opts False) = ''DragDrop''"
    "uppy (fresh bare_opts True) = \<lparr>allowNewUpload = True, registered = []\<rparr>"
    "uppy (fresh bare_opts False) = \<lparr>allowNewUpload = False, registered = []\<rparr>"
    by (simp_all add: samples prims)
  have d: "build_descriptor ''DragDrop'' file_picked =
      \<lparr>source = ''DragDrop'', name = ''a.txt'', type = ''text/plain'', data = file_picked,
       meta = \<lparr>relativePath = Null\<rparr>\<rparr>"
    by (simp add: build_descriptor_def or_else_def file_picked_def)
  show ?thesis
    using handleDrop_submits_what_resolves [where s = "fresh bare_opts True" and E = accepting_env
        and event = text_event]
      handleDrop_submits_what_resolves [where s = "fresh bare_opts False" and E = accepting_env
        and event = files_event]
    by (simp add: p d accepting_env_def text_event_def files_event_def)
qed

section \<open>Observers\<close>

text \<open>
  Claim C2 does not hold of the code. \<open>this.opts?.onDragOver(event)\<close> and
  \<open>this.opts?.onDragLeave(event)\<close> call the callback whether or not it is registered:
  an accepted drag-over and every drag-leave raise a TypeError when it is not. The drop
  handler's \<open>this.opts.onDrop?.(event)\<close> is the guarded form, and returns.
\<close>

theorem unregistered_observer_raises:
  "(onDragOver (opts s) = None \<and> hasFiles event \<and> allowNewUpload (uppy s) \<longrightarrow>
      raised (handleDragOver event s) = Some (TypeError ''callback is not a function'')) \<and>
   (onDragLeave (opts s) = None \<longrightarrow>
      raised (handleDragLeave event s) = Some (TypeError ''callback is not a function'')) \<and>
   (onDrop (opts s) = None \<longrightarrow> raised (handleDrop E event s) = None)"
  by (simp add: handleDragOver_accept handleDragLeave_eq handleDrop_def handleDrop_begin_eq
      handleDrop_resume_eq Let_def)

theorem unregistered_observer_raises_witness:
  "raised (handleDragOver files_event (fresh bare_opts True)) =
     Some (TypeError ''callback is not a function'') \<and>
   raised (handleDragLeave files_event (fresh bare_opts True)) =
     Some (TypeError ''callback is not a function'') \<and>
   raised (handleDrop accepting_env files_event (fresh bare_opts True)) = None"
  using unregistered_observer_raises [where s = "fresh bare_opts True" and event = files_event
      and E = accepting_env]
  by (simp add: samples prims hasFiles_def)

section \<open>The drag state machine\<close>

text \<open>
  Claim C3. A drag-over whose type manifest has \<open>Files\<close>, received while
  \<open>allowNewUpload\<close> is true, leaves \<open>isDraggingOver\<close> true and the drop effect \<open>copy\<close>;
  every other drag-over leaves \<open>isDraggingOver\<close> as it was and the drop effect \<open>none\<close>.
  (So from idle the machine goes to hovering exactly in the first case.) The drop
  effect is never \<open>move\<close>. This holds also when the call of the observer raises, since
  the writes come first.
\<close>

theorem handleDragOver_transition:
  "(if hasFiles event \<and> allowNewUpload (uppy s)
    then isDraggingOver (snd (world_of (handleDragOver event s))) \<and>
         dropEffect (dataTransfer (fst (world_of (handleDragOver event s)))) = ''copy''
    else isDraggingOver (snd (world_of (handleDragOver event s))) = isDraggingOver s \<and>
         dropEffect (dataTransfer (fst (world_of (handleDragOver event s)))) = ''none'') \<and>
   dropEffect (dataTransfer (fst (world_of (handleDragOver event s)))) \<noteq> ''move'' \<and>
   SetDropEffect ''move'' \<notin> set (emitted s (snd (world_of (handleDragOver event s))))"
proof (cases "hasFiles event \<and> allowNewUpload (uppy s)")
  case True
  then show ?thesis
    by (simp add: handleDragOver_accept emitted_def Let_def split: option.splits)
next
  case False
  then have r: "\<not> hasFiles event \<or> \<not> allowNewUpload (uppy s)" by simp
  show ?thesis
    unfolding handleDragOver_reject [OF r] using False by (auto simp add: emitted_def)
qed

theorem handleDragOver_transition_witness:
  "\<not> isDraggingOver (fresh observed_opts True) \<and>
   isDraggingOver (snd (world_of (handleDragOver files_event (fresh observed_opts True)))) \<and>
   dropEffect (dataTransfer (fst (world_of (handleDragOver files_event (fresh observed_opts True))))) =
     ''copy'' \<and>
   \<not> isDraggingOver (snd (world_of (handleDragOver text_event (fresh observed_opts True)))) \<and>
   dropEffect (dataTransfer (fst (world_of (handleDragOver text_event (fresh observed_opts True))))) =
     ''none'' \<and>
   \<not> isDraggingOver (snd (world_of (handleDragOver files_event (fresh observed_opts False)))) \<and>
   dropEffect (dataTransfer (fst (world_of (handleDragOver files_event (fresh observed_opts False))))) =
     ''none''"
  using handleDragOver_transition [where event = files_event and s = "fresh observed_opts True"]
    handleDragOver_transition [where event = text_event and s = "fresh observed_opts True"]
    handleDragOver_transition [where event = files_event and s = "fresh observed_opts False"]
  by (simp add: samples prims hasFiles_def)

text \<open>
  Claim C10. A rejected drag-over leaves \<open>isDraggingOver\<close> as it was and cancels the
  timer whose handle is in \<open>removeDragOverClassTimeout\<close>. In a state where that is the
  only timer, none is pending afterwards, and however much time passes
  \<open>isDraggingOver\<close> keeps its value: a plugin that was hovering with a drag-leave
  pending stays hovering.
\<close>

theorem rejected_dragOver_cancels_debounce:
  assumes "\<not> hasFiles event \<or> \<not> allowNewUpload (uppy s)"
  shows "isDraggingOver (snd (world_of (handleDragOver event s))) = isDraggingOver s \<and>
         list_all (\<lambda>p. Some (fst p) \<noteq> removeDragOverClassTimeout s)
           (timers (snd (world_of (handleDragOver event s)))) \<and>
         (tracked s \<longrightarrow>
            timers (step E (DragOver event) s) = [] \<and>
            (\<forall>d. isDraggingOver (run E [DragOver event, Elapse d] s) = isDraggingOver s))"
proof -
  have a: "isDraggingOver (snd (world_of (handleDragOver event s))) = isDraggingOver s"
    using assms by (simp add: handleDragOver_reject)
  have b: "list_all (\<lambda>p. Some (fst p) \<noteq> removeDragOverClassTimeout s)
           (timers (snd (world_of (handleDragOver event s))))"
    using assms by (simp add: handleDragOver_reject list_all_iff)
  have c: "timers (step E (DragOver event) s) = [] \<and>
            (\<forall>d. isDraggingOver (run E [DragOver event, Elapse d] s) = isDraggingOver s)"
    if t: "tracked s"
  proof -
    have nil: "timers (step E (DragOver event) s) = []"
      using t by (rule step_DragOver)
    have same: "isDraggingOver (step E (DragOver event) s) = isDraggingOver s"
      using assms step_DragOver(2) [OF t, of E event] by blast
    have "isDraggingOver (run E [DragOver event, Elapse d] s) = isDraggingOver s" for d
      using elapse_idle [OF nil, of d] same by (simp del: step.simps(1))
    with nil show ?thesis by blast
  qed
  from a b c show ?thesis by blast
qed

theorem rejected_dragOver_cancels_debounce_witness:
  "isDraggingOver leaving \<and> timers leaving = [(1, 50)] \<and>
   timers (step accepting_env (DragOver text_event) leaving) = [] \<and>
   isDraggingOver (run accepting_env [DragOver text_event, Elapse 1000] leaving)"
  using rejected_dragOver_cancels_debounce [where event = text_event and s = leaving
      and E = accepting_env]
    leaving_eval
  by (simp add: hasFiles_def text_event_def del: step.simps run.simps)

text \<open>
  Claim C6. After a drag-leave one timer is pending, due 50 ms later, and
  \<open>isDraggingOver\<close> is as before. It keeps that value while less than 50 ms pass, and is
  false once 50 ms have passed. A drag-over that arrives within the 50 ms, accepted or
  not, leaves no timer pending, and no later passing of time resets \<open>isDraggingOver\<close>.
  In particular, over a drag-over, a drag-leave, and another drag-over less than 50 ms
  after the leave, with any time passing in between and afterwards, \<open>isDraggingOver\<close>
  never goes from true to false; and when the first drag-over is an accepted one, the
  plugin is hovering after every step.
\<close>

theorem dragLeave_debounce:
  assumes "tracked s"
  shows "isDraggingOver (step E (DragLeave ev) s) = isDraggingOver s \<and>
         timers (step E (DragLeave ev) s) = [(nextTimer s, clock s + 50)] \<and>
         (\<forall>d. d < 50 \<longrightarrow> isDraggingOver (run E [DragLeave ev, Elapse d] s) = isDraggingOver s) \<and>
         (\<forall>d. 50 \<le> d \<longrightarrow> \<not> isDraggingOver (run E [DragLeave ev, Elapse d] s)) \<and>
         (\<forall>d ev' d'. d < 50 \<longrightarrow>
            timers (run E [DragLeave ev, Elapse d, DragOver ev'] s) = [] \<and>
            isDraggingOver (run E [DragLeave ev, Elapse d, DragOver ev', Elapse d'] s) =
              (isDraggingOver s \<or> hasFiles ev' \<and> allowNewUpload (uppy s))) \<and>
         (\<forall>a ev2 b ev3 c. b < 50 \<longrightarrow>
            no_reset (isDraggingOver s)
              (states E [DragOver ev, Elapse a, DragLeave ev2, Elapse b, DragOver ev3, Elapse c] s)) \<and>
         (\<forall>a ev2 b ev3 c. hasFiles ev \<and> allowNewUpload (uppy s) \<and> b < 50 \<longrightarrow>
            list_all isDraggingOver
              (states E [DragOver ev, Elapse a, DragLeave ev2, Elapse b, DragOver ev3, Elapse c] s))"
proof -
  note t = assms
  have p1: "isDraggingOver (step E (DragLeave ev) s) = isDraggingOver s"
    using t by (rule step_DragLeave)
  have p2: "timers (step E (DragLeave ev) s) = [(nextTimer s, clock s + 50)]"
    using t by (rule step_DragLeave)
  have p3: "isDraggingOver (run E [DragLeave ev, Elapse d] s) = isDraggingOver s" if "d < 50" for d
    using leave_then_elapse(1) [OF t, of d E ev] that by (simp del: step.simps(1,2))
  have p4: "\<not> isDraggingOver (run E [DragLeave ev, Elapse d] s)" if "50 \<le> d" for d
    using leave_then_elapse(1) [OF t, of d E ev] that by (simp del: step.simps(1,2))
  have p5: "timers (run E [DragLeave ev, Elapse d, DragOver ev'] s) = [] \<and>
            isDraggingOver (run E [DragLeave ev, Elapse d, DragOver ev', Elapse d'] s) =
              (isDraggingOver s \<or> hasFiles ev' \<and> allowNewUpload (uppy s))"
    if "d < 50" for d ev' d'
  proof -
    let ?s2 = "elapse d (step E (DragLeave ev) s)"
    have t2: "tracked ?s2" using t by (rule tracked_leave_elapse)
    have i2: "isDraggingOver ?s2 = isDraggingOver s"
      using leave_then_elapse(1) [OF t, of d E ev] that by simp
    have u2: "uppy ?s2 = uppy s" using t by (rule leave_then_elapse)
    have "timers (step E (DragOver ev') ?s2) = []" using t2 by (rule step_DragOver)
    moreover have "isDraggingOver (elapse d' (step E (DragOver ev') ?s2)) =
        (isDraggingOver s \<or> hasFiles ev' \<and> allowNewUpload (uppy s))"
      using over_then_elapse(1) [OF t2, of d' E ev'] i2 u2 by simp
    ultimately show ?thesis by (simp del: step.simps(1,2))
  qed
  have p6: "list_all isDraggingOver
              (states E [DragOver ev, Elapse a, DragLeave ev2, Elapse b, DragOver ev3, Elapse c] s)"
    if "hasFiles ev \<and> allowNewUpload (uppy s) \<and> b < 50" for a ev2 b ev3 c
    using that debounce_sequence [OF t, of ev b E a ev2 ev3 c] by blast
  have p7: "no_reset (isDraggingOver s)
              (states E [DragOver ev, Elapse a, DragLeave ev2, Elapse b, DragOver ev3, Elapse c] s)"
    if "b < 50" for a ev2 b ev3 c
    using t that by (rule debounce_no_reset)
  from p1 p2 p3 p4 p5 p6 p7 show ?thesis by blast
qed

theorem dragLeave_debounce_witness:
  "isDraggingOver hovering \<and>
   isDraggingOver (run accepting_env [DragLeave files_event, Elapse 49] hovering) \<and>
   \<not> isDraggingOver (run accepting_env [DragLeave files_event, Elapse 50] hovering) \<and>
   isDraggingOver
     (run accepting_env [DragLeave files_event, Elapse 49, DragOver text_event, Elapse 1000] hovering) \<and>
   list_all isDraggingOver
     (states accepting_env
        [DragOver files_event, Elapse 10, DragLeave files_event, Elapse 49, DragOver files_event,
         Elapse 1000]
        (fresh observed_opts True))"
proof -
  have t1: "tracked hovering" using hovering_eval(2) by (rule tracked_nil)
  have t0: "tracked (fresh observed_opts True)" by (rule tracked_fresh)
  have a: "hasFiles files_event" by (simp add: hasFiles_def files_event_def)
  have u: "allowNewUpload (uppy (fresh observed_opts True))" by (simp add: samples prims)
  show ?thesis
    using dragLeave_debounce [OF t1, of accepting_env files_event]
      dragLeave_debounce [OF t0, of accepting_env files_event] a u hovering_eval(1)
    by (simp del: step.simps run.simps states.simps)
qed

section \<open>The order of effects\<close>

text \<open>
  Claim C5. The synchronous part of \<open>handleDrop\<close> cancels the timer whose handle is in
  \<open>removeDragOverClassTimeout\<close> (the only one there can be) and sets \<open>isDraggingOver\<close> to false at once, the clock
  not having moved, and only then starts \<open>getDroppedFiles\<close>. The whole trace of a drop is:
  the two event calls, the cancellation, the reset, the start of the traversal; then the
  errors of the traversal, logged; then, when files resolved, the log line and the one
  submission (and its rejection, logged); then the call of \<open>onDrop\<close> when registered.
  Nothing after the reset writes \<open>isDraggingOver\<close>.
\<close>

theorem handleDrop_resets_first:
  "snd (handleDrop_begin event s) =
     s\<lparr>isDraggingOver := False,
       timers := filter (\<lambda>p. Some (fst p) \<noteq> removeDragOverClassTimeout s) (timers s),
       trace := trace s @ [PreventDefault, StopPropagation,
         ClearTimeout (removeDragOverClassTimeout s), SetPluginState False, GetDroppedFiles]\<rparr> \<and>
   emitted s (snd (world_of (handleDrop E event s))) =
     (let r = getDroppedFiles E (dataTransfer event);
          ds = map (build_descriptor (plugin_id s)) (snd r);
          a = uppy_addFiles E ds (uppy s)
      in [PreventDefault, StopPropagation, ClearTimeout (removeDragOverClassTimeout s),
          SetPluginState False, GetDroppedFiles] @
         map (\<lambda>e. Log (Err e) (Some ''error'')) (fst r) @
         (if snd r = [] then []
          else [Log (Msg ''[DragDrop] Files dropped'') None, AddFiles ds] @
            (case fst a of None \<Rightarrow> [] | Some e \<Rightarrow> [Log (Err e) None])) @
         (case onDrop (opts s) of
            None \<Rightarrow> []
          | Some f \<Rightarrow> [Invoke DropKind (event\<lparr>defaultPrevented := True, propagationStopped := True\<rparr>)])) \<and>
   \<not> isDraggingOver (snd (world_of (handleDrop E event s))) \<and>
   clock (snd (world_of (handleDrop E event s))) = clock s \<and>
   list_all (\<lambda>p. Some (fst p) \<noteq> removeDragOverClassTimeout s)
     (timers (snd (handleDrop_begin event s))) \<and>
   (tracked s \<longrightarrow> timers (snd (handleDrop_begin event s)) = [])"
  by (simp add: handleDrop_def handleDrop_begin_eq handleDrop_resume_eq emitted_def Let_def
      list_all_iff tracked_filter split: option.splits)

theorem handleDrop_resets_first_witness:
  "isDraggingOver leaving \<and> timers leaving = [(1, 50)] \<and>
   emitted leaving (snd (world_of (handleDrop accepting_env files_event leaving))) =
     [PreventDefault, StopPropagation, ClearTimeout (Some 1), SetPluginState False,
      GetDroppedFiles, Log (Msg ''[DragDrop] Files dropped'') None,
      AddFiles [build_descriptor ''DragDrop'' file_picked],
      Invoke DropKind (files_event\<lparr>defaultPrevented := True, propagationStopped := True\<rparr>)] \<and>
   \<not> isDraggingOver (snd (handleDrop_begin files_event leaving)) \<and>
   timers (snd (handleDrop_begin files_event leaving)) = [] \<and>
   clock (snd (world_of (handleDrop accepting_env files_event leaving))) = clock leaving"
proof -
  have p: "plugin_id leaving = ''DragDrop''" "onDrop (opts leaving) = Some (\<lambda>event. None)"
    by (simp_all add: handleDragOver_def handleDragLeave_def hasFiles_def Let_def samples prims)
  show ?thesis
    using handleDrop_resets_first [where event = files_event and s = leaving and E = accepting_env]
      leaving_eval p
    by (simp add: accepting_env_def files_event_def Let_def)
qed




end
